theory Spec2Isabelle
  imports Complex_Main "HOL-Library.Sublist"
begin

section \<open>Python values\<close>

text \<open>
  A Python \<open>str\<close> is a sequence of Unicode code points; it is modelled as the list of
  their numbers, so that \<open>length\<close> counts what \<open>len\<close> counts. The literals of
  \<open>go.py\<close> are written by code point (the CJK ones are noted as U+XXXX).
  An exception caught by \<open>except Exception as e\<close> is represented by \<open>str(e)\<close>.
\<close>

type_synonym pystr = "nat list"
type_synonym exn = pystr

text \<open>
  \<open>Py_UNICODE_ISSPACE\<close>, which both \<open>str.strip()\<close> and the regex class \<open>\s\<close> of a
  \<open>str\<close> pattern use: the 29 code points that CPython's \<open>_PyUnicode_IsWhitespace\<close>
  lists.
\<close>

definition isspace :: "nat \<Rightarrow> bool" where
  "isspace c \<longleftrightarrow>
     (0x09 \<le> c \<and> c \<le> 0x0D) \<or> (0x1C \<le> c \<and> c \<le> 0x20) \<or> c = 0x85 \<or> c = 0xA0 \<or>
     c = 0x1680 \<or> (0x2000 \<le> c \<and> c \<le> 0x200A) \<or> c = 0x2028 \<or> c = 0x2029 \<or>
     c = 0x202F \<or> c = 0x205F \<or> c = 0x3000"

text \<open>
  A word of \<open>page.get_text("words")\<close> is a tuple; the code reads its component 1 (the
  top coordinate, a finite float, which is a real number) and its component 4 (the
  text). A page answers the two \<open>get_text\<close> calls of lines 25 and 28, each with a value
  or by raising. Iterating over a document delivers a page or raises.
\<close>

record word =
  w_y0 :: real
  w_text :: pystr

record page =
  get_text_text :: "exn + pystr"
  get_text_words :: "exn + word list"

type_synonym document = "(exn + page) list"

text \<open>
  What \<open>go.py\<close> takes from its runtime and does not define: the Unicode tables behind
  the regex classes \<open>\d\<close> (\<open>Py_UNICODE_ISDECIMAL\<close>) and \<open>\w\<close>
  (\<open>Py_UNICODE_ISALNUM\<close>, or an underscore), \<open>str.lower\<close>, \<open>os.path.join\<close>,
  \<open>os.listdir\<close> and what \<open>fitz.open\<close> answers for a path.
  They are parameters of the model; every general statement below holds for all of them.
\<close>

record runtime =
  uc_isdecimal :: "nat \<Rightarrow> bool"
  uc_isalnum :: "nat \<Rightarrow> bool"
  str_lower :: "pystr \<Rightarrow> pystr"
  os_path_join :: "pystr \<Rightarrow> pystr \<Rightarrow> pystr"
  os_listdir :: "pystr \<Rightarrow> pystr list"
  fitz_open :: "pystr \<Rightarrow> exn + document"

text \<open>\<open>s.startswith(p)\<close>, \<open>s.endswith(p)\<close> and \<open>p in s\<close> on strings.\<close>

fun startswith :: "pystr \<Rightarrow> pystr \<Rightarrow> bool" where
  "startswith s [] = True"
| "startswith [] (p # ps) = False"
| "startswith (c # s) (p # ps) = (c = p \<and> startswith s ps)"

definition endswith :: "pystr \<Rightarrow> pystr \<Rightarrow> bool" where
  "endswith s p = startswith (rev s) (rev p)"

fun py_in :: "pystr \<Rightarrow> pystr \<Rightarrow> bool" where
  "py_in p [] = (p = [])"
| "py_in p (c # s) = (startswith (c # s) p \<or> py_in p s)"

text \<open>\<open>s.strip()\<close>: leading and trailing whitespace removed.\<close>

definition strip :: "pystr \<Rightarrow> pystr" where
  "strip s = rev (dropWhile isspace (rev (dropWhile isspace s)))"

text \<open>
  \<open>round(x)\<close> on a float: the nearest integer, a tie going to the even one.
\<close>

definition py_round :: "real \<Rightarrow> int" where
  "py_round q =
     (let f = \<lfloor>q\<rfloor>; d = q - of_int f
      in if d < 1 / 2 then f else if 1 / 2 < d then f + 1 else if even f then f else f + 1)"

text \<open>\<open>str(n)\<close> for a natural number, as the f-string of line 65 formats it.\<close>

function str_of_nat :: "nat \<Rightarrow> pystr" where
  "str_of_nat n = (if n < 10 then [0x30 + n] else str_of_nat (n div 10) @ [0x30 + n mod 10])"
  by pat_completeness auto
termination
  by (relation "measure id") auto

section \<open>Row Reconstructor (go.py, lines 32 to 38)\<close>

text \<open>
  \<open>rows = defaultdict(list)\<close> is a dictionary in insertion order, an association
  list here; \<open>rows[k].append(v)\<close> appends to the entry of \<open>k\<close>, creating it at the
  end when it is missing.
\<close>

fun rows_append :: "(int \<times> pystr list) list \<Rightarrow> int \<Rightarrow> pystr \<Rightarrow> (int \<times> pystr list) list" where
  "rows_append [] k v = [(k, [v])]"
| "rows_append ((k', vs) # rest) k v =
     (if k' = k then (k', vs @ [v]) # rest else (k', vs) # rows_append rest k v)"

definition group_words :: "word list \<Rightarrow> (int \<times> pystr list) list" where
  "group_words ws = foldl (\<lambda>rows w. rows_append rows (py_round (w_y0 w)) (w_text w)) [] ws"

definition rows_get :: "(int \<times> pystr list) list \<Rightarrow> int \<Rightarrow> pystr list" where
  "rows_get rows k = (case map_of rows k of Some vs \<Rightarrow> vs | None \<Rightarrow> [])"

text \<open>
  The pairs \<open>(y_coord, row_text)\<close> that the loop of line 37 visits, in its order:
  \<open>sorted(rows.keys())\<close>, and for each key \<open>"".join(rows[y_coord])\<close>.
\<close>

definition page_rows :: "word list \<Rightarrow> (int \<times> pystr) list" where
  "page_rows ws =
     (let rows = group_words ws
      in map (\<lambda>y_coord. (y_coord, concat (rows_get rows y_coord))) (sort (map fst rows)))"

section \<open>Row Classifier (go.py, lines 22 and 40)\<close>

text \<open>
  \<open>time_pattern = re.compile(r'\d{2}:\d{2}:\d{2}')\<close>: a match at the start of the
  string, then \<open>search\<close>, which tries every start position from the left.
\<close>

fun time_pattern_match :: "runtime \<Rightarrow> pystr \<Rightarrow> bool" where
  "time_pattern_match R (a # b # c # d # e # f # g # h # rest) =
     (uc_isdecimal R a \<and> uc_isdecimal R b \<and> c = 0x3A \<and>
      uc_isdecimal R d \<and> uc_isdecimal R e \<and> f = 0x3A \<and>
      uc_isdecimal R g \<and> uc_isdecimal R h)"
| "time_pattern_match R s = False"

fun time_pattern_search :: "runtime \<Rightarrow> pystr \<Rightarrow> bool" where
  "time_pattern_search R [] = False"
| "time_pattern_search R (c # s) = (time_pattern_match R (c # s) \<or> time_pattern_search R s)"

text \<open>The unit marker \<open>"(" U+5B89 U+6642 ")"\<close> (ampere-hours, in parentheses).\<close>

definition unit_marker :: pystr where
  "unit_marker = [0x28, 0x5B89, 0x6642, 0x29]"

text \<open>
  Line 40 skips the row unless
  \<open>time_pattern.search(row_text) and unit_marker in row_text\<close>.
\<close>

definition is_swap_row :: "runtime \<Rightarrow> pystr \<Rightarrow> bool" where
  "is_swap_row R row_text \<longleftrightarrow> time_pattern_search R row_text \<and> py_in unit_marker row_text"

section \<open>Station Extractor (go.py, lines 21 and 43 to 50)\<close>

text \<open>
  The class \<open>[\u4e00-\u9fa5\w\s\d-]\<close> of \<open>station_pattern\<close>, and its alternatives
  (U+7AD9 | U+5E97 | U+9580 U+5E02 | U+516C U+6240 | U+4E2D U+5FC3 | U+505C U+8ECA U+5834),
  in the order of the pattern.
\<close>

definition station_char :: "runtime \<Rightarrow> nat \<Rightarrow> bool" where
  "station_char R c \<longleftrightarrow>
     (0x4E00 \<le> c \<and> c \<le> 0x9FA5) \<or> (uc_isalnum R c \<or> c = 0x5F) \<or> isspace c \<or>
     uc_isdecimal R c \<or> c = 0x2D"

definition station_suffixes :: "pystr list" where
  "station_suffixes =
     [[0x7AD9], [0x5E97], [0x9580, 0x5E02], [0x516C, 0x6240], [0x4E2D, 0x5FC3],
      [0x505C, 0x8ECA, 0x5834]]"

text \<open>
  Regex matching at the start of a string, the result being the length of the match.
  An alternation that ends the pattern takes its first alternative that matches. A
  greedy \<open>+\<close> over a class takes the longest run and, while the rest of the pattern
  fails, gives back one character at a time, down to one.
\<close>

fun match_alternatives :: "pystr list \<Rightarrow> pystr \<Rightarrow> nat option" where
  "match_alternatives [] s = None"
| "match_alternatives (a # alts) s =
     (if startswith s a then Some (length a) else match_alternatives alts s)"

fun backtrack :: "(pystr \<Rightarrow> nat option) \<Rightarrow> pystr \<Rightarrow> nat \<Rightarrow> nat option" where
  "backtrack k s 0 = None"
| "backtrack k s (Suc n) =
     (case k (drop (Suc n) s) of Some m \<Rightarrow> Some (Suc n + m) | None \<Rightarrow> backtrack k s n)"

definition greedy_plus :: "(nat \<Rightarrow> bool) \<Rightarrow> (pystr \<Rightarrow> nat option) \<Rightarrow> pystr \<Rightarrow> nat option" where
  "greedy_plus P k s = backtrack k s (length (takeWhile P s))"

definition station_pattern_match :: "runtime \<Rightarrow> pystr \<Rightarrow> nat option" where
  "station_pattern_match R s =
     greedy_plus (station_char R) (match_alternatives station_suffixes) s"

lemma backtrack_bounds:
  "backtrack k s n = Some m \<Longrightarrow> (\<And>t j. k t = Some j \<Longrightarrow> j \<le> length t) \<Longrightarrow> n \<le> length s
   \<Longrightarrow> 0 < m \<and> m \<le> length s"
proof (induction n)
  case 0
  then show ?case by simp
next
  case (Suc n)
  show ?case
  proof (cases "k (drop (Suc n) s)")
    case None
    with Suc show ?thesis by simp
  next
    case (Some j)
    with Suc.prems(2) have "j \<le> length (drop (Suc n) s)" by blast
    with Some Suc.prems(1,3) show ?thesis by auto
  qed
qed

lemma match_alternatives_le: "match_alternatives alts t = Some j \<Longrightarrow> j \<le> length t"
proof (induction alts)
  case Nil
  then show ?case by simp
next
  case (Cons a alts)
  have "startswith t a \<Longrightarrow> length a \<le> length t"
    by (induction t a rule: startswith.induct) simp_all
  with Cons show ?case by (auto split: if_splits)
qed

lemma station_pattern_match_bounds:
  "station_pattern_match R s = Some m \<Longrightarrow> 0 < m \<and> m \<le> length s"
  unfolding station_pattern_match_def greedy_plus_def
  by (erule backtrack_bounds) (auto simp: match_alternatives_le length_takeWhile_le)

text \<open>
  \<open>station_pattern.findall(row_text)\<close>: the matches from left to right, the search
  resuming where the last match ended. The one group of the pattern spans the whole
  match, so each result is the matched text.
\<close>

function station_findall :: "runtime \<Rightarrow> pystr \<Rightarrow> pystr list" where
  "station_findall R [] = []"
| "station_findall R (c # s) =
     (case station_pattern_match R (c # s) of
        None \<Rightarrow> station_findall R s
      | Some m \<Rightarrow> take m (c # s) # station_findall R (drop m (c # s)))"
  by pat_completeness auto
termination
  by (relation "measure (\<lambda>(R, s). length s)") (auto dest: station_pattern_match_bounds)

text \<open>
  \<open>re.sub(r'\s+[A-D]$', '', s)\<close>. Without the MULTILINE flag \<open>$\<close> holds at the end
  of the string and just before a newline that ends it.
\<close>

definition bay_letter_at_end :: "pystr \<Rightarrow> nat option" where
  "bay_letter_at_end s =
     (case s of
        [] \<Rightarrow> None
      | c # r \<Rightarrow> if 0x41 \<le> c \<and> c \<le> 0x44 \<and> (r = [] \<or> r = [0x0A]) then Some 1 else None)"

definition bay_pattern_match :: "pystr \<Rightarrow> nat option" where
  "bay_pattern_match s = greedy_plus isspace bay_letter_at_end s"

lemma bay_pattern_match_bounds: "bay_pattern_match s = Some m \<Longrightarrow> 0 < m \<and> m \<le> length s"
  unfolding bay_pattern_match_def greedy_plus_def
  by (erule backtrack_bounds)
     (auto simp: bay_letter_at_end_def length_takeWhile_le split: list.splits if_splits)

function bay_sub :: "pystr \<Rightarrow> pystr" where
  "bay_sub [] = []"
| "bay_sub (c # s) =
     (case bay_pattern_match (c # s) of
        None \<Rightarrow> c # bay_sub s
      | Some m \<Rightarrow> bay_sub (drop m (c # s)))"
  by pat_completeness auto
termination
  by (relation "measure length") (auto dest: bay_pattern_match_bounds)

text \<open>
  A string ends in a bay designator when its last character is one of \<open>A\<close> to \<open>D\<close>
  and the one before it is whitespace.
\<close>

definition ends_with_bay :: "pystr \<Rightarrow> bool" where
  "ends_with_bay s =
     (case rev s of
        l # w # front \<Rightarrow> 0x41 \<le> l \<and> l \<le> 0x44 \<and> isspace w
      | _ \<Rightarrow> False)"

text \<open>
  The exclusion phrases of line 47:
  U+63DB U+96FB U+514D U+8CBB U+6642 U+6BB5 U+6298 U+62B5 (free-period offset) and
  U+8A08 U+8CBB U+6578 U+91CF (billing quantity).
\<close>

definition exclusion_free_period :: pystr where
  "exclusion_free_period = [0x63DB, 0x96FB, 0x514D, 0x8CBB, 0x6642, 0x6BB5, 0x6298, 0x62B5]"

definition exclusion_quantity :: pystr where
  "exclusion_quantity = [0x8A08, 0x8CBB, 0x6578, 0x91CF]"

text \<open>
  Lines 46 to 50 for one candidate: what is appended to \<open>stations\<close> (nothing, or one
  name).
\<close>

definition clean_station :: "pystr \<Rightarrow> pystr list" where
  "clean_station station =
     (let cleaned_station = strip station
      in if \<not> py_in exclusion_free_period cleaned_station \<and>
            \<not> py_in exclusion_quantity cleaned_station
         then (let cleaned_station = strip (bay_sub cleaned_station)
               in if cleaned_station \<noteq> [] then [cleaned_station] else [])
         else [])"

text \<open>Lines 40 to 50 for one row text: the names that the row appends.\<close>

definition row_stations :: "runtime \<Rightarrow> pystr \<Rightarrow> pystr list" where
  "row_stations R row_text =
     (if \<not> is_swap_row R row_text then []
      else concat (map clean_station (station_findall R row_text)))"

section \<open>Per-document extraction (go.py, lines 17 to 55)\<close>

text \<open>
  The page marker of line 25: U+96FB U+6C60 U+670D U+52D9 U+660E U+7D30 U+8868
  (battery service detail statement).
\<close>

definition page_marker :: pystr where
  "page_marker = [0x96FB, 0x6C60, 0x670D, 0x52D9, 0x660E, 0x7D30, 0x8868]"

text \<open>
  One iteration of the page loop (lines 25 to 50): the names it appends to
  \<open>stations\<close>, or the exception that a \<open>get_text\<close> call raises. Both calls come
  before the first \<open>append\<close> of the iteration, and nothing after them raises.
\<close>

definition page_stations :: "runtime \<Rightarrow> page \<Rightarrow> exn + pystr list" where
  "page_stations R p =
     (case get_text_text p of
        Inl e \<Rightarrow> Inl e
      | Inr t \<Rightarrow>
          if \<not> py_in page_marker t then Inr []
          else (case get_text_words p of
                  Inl e \<Rightarrow> Inl e
                | Inr words \<Rightarrow>
                    if words = [] then Inr []
                    else Inr (concat (map (\<lambda>(y_coord, row_text). row_stations R row_text)
                                         (page_rows words)))))"

text \<open>
  One step of \<open>for page in doc\<close>: delivering the page may raise, and so may
  processing it.
\<close>

definition page_outcome :: "runtime \<Rightarrow> exn + page \<Rightarrow> exn + pystr list" where
  "page_outcome R x = (case x of Inl e \<Rightarrow> Inl e | Inr p \<Rightarrow> page_stations R p)"

text \<open>
  \<open>for page in doc\<close> with the list \<open>stations\<close> as it stands: the exception that
  ended the loop, if any, and \<open>stations\<close> afterwards.
\<close>

fun pages_loop :: "runtime \<Rightarrow> document \<Rightarrow> pystr list \<Rightarrow> exn option \<times> pystr list" where
  "pages_loop R [] stations = (None, stations)"
| "pages_loop R (x # doc) stations =
     (case page_outcome R x of
        Inl e \<Rightarrow> (Some e, stations)
      | Inr found \<Rightarrow> pages_loop R doc (stations @ found))"

text \<open>
  The message of line 53: U+8655 U+7406 U+6A94 U+6848, a space and a quote, the path, a
  quote, a space, U+6642 U+767C U+751F U+932F U+8AA4, a colon and a space, \<open>str(e)\<close>.
\<close>

definition error_message :: "pystr \<Rightarrow> exn \<Rightarrow> pystr" where
  "error_message pdf_path e =
     [0x8655, 0x7406, 0x6A94, 0x6848, 0x20, 0x27] @ pdf_path @
     [0x27, 0x20, 0x6642, 0x767C, 0x751F, 0x932F, 0x8AA4, 0x3A, 0x20] @ e"

record extraction =
  ex_stations :: "pystr list"
  ex_printed :: "pystr list"

text \<open>
  \<open>stations = []\<close> stands before the \<open>try\<close> and \<open>return stations\<close> after the
  handler, which prints and does nothing else.
\<close>

definition extract_swap_stations_from_pdf :: "runtime \<Rightarrow> pystr \<Rightarrow> extraction" where
  "extract_swap_stations_from_pdf R pdf_path =
     (case fitz_open R pdf_path of
        Inl e \<Rightarrow> \<lparr>ex_stations = [], ex_printed = [error_message pdf_path e]\<rparr>
      | Inr doc \<Rightarrow>
          (case pages_loop R doc [] of
             (None, stations) \<Rightarrow> \<lparr>ex_stations = stations, ex_printed = []\<rparr>
           | (Some e, stations) \<Rightarrow>
               \<lparr>ex_stations = stations, ex_printed = [error_message pdf_path e]\<rparr>))"

text \<open>
  The exception, if any, that the \<open>try\<close> block raises for the document of a path.
\<close>

definition document_error :: "runtime \<Rightarrow> pystr \<Rightarrow> exn option" where
  "document_error R pdf_path =
     (case fitz_open R pdf_path of Inl e \<Rightarrow> Some e | Inr doc \<Rightarrow> fst (pages_loop R doc []))"

section \<open>Aggregator (go.py, lines 57 to 83)\<close>

text \<open>
  \<open>pd.Series(all_swaps).value_counts()\<close>: one entry per distinct name with the number
  of its occurrences, by descending count. The order among equal counts is pandas' own
  and nothing below depends on it.
\<close>

fun bump :: "(pystr \<times> nat) list \<Rightarrow> pystr \<Rightarrow> (pystr \<times> nat) list" where
  "bump [] k = [(k, 1)]"
| "bump ((k', c) # rest) k = (if k' = k then (k', Suc c) # rest else (k', c) # bump rest k)"

definition value_counts :: "pystr list \<Rightarrow> (pystr \<times> nat) list" where
  "value_counts xs = sort_key (\<lambda>p. - int (snd p)) (foldl bump [] xs)"

text \<open>The texts printed by \<open>analyze_bills_in_folder\<close> (lines 62, 65, 68, 73, 76).\<close>

definition msg_no_pdf :: pystr where
  "msg_no_pdf =
     [0x932F, 0x8AA4, 0xFF1A, 0x5728, 0x6307, 0x5B9A, 0x8CC7, 0x6599, 0x593E, 0x4E2D, 0x627E,
      0x4E0D, 0x5230, 0x4EFB, 0x4F55, 0x20, 0x50, 0x44, 0x46, 0x20, 0x6A94, 0x6848, 0x3002]"

definition msg_found :: "nat \<Rightarrow> pystr" where
  "msg_found n =
     [0x627E, 0x5230, 0x20] @ str_of_nat n @
     [0x20, 0x500B, 0x20, 0x50, 0x44, 0x46, 0x20, 0x6A94, 0x6848, 0xFF0C, 0x958B, 0x59CB,
      0x5206, 0x6790, 0x2E, 0x2E, 0x2E]"

definition msg_processing :: "pystr \<Rightarrow> pystr" where
  "msg_processing pdf_file =
     [0x20, 0x20, 0x2D, 0x20, 0x6B63, 0x5728, 0x8655, 0x7406, 0x3A, 0x20] @ pdf_file"

definition msg_done :: pystr where
  "msg_done = [0x5206, 0x6790, 0x5B8C, 0x6210, 0xFF01]"

definition msg_no_records :: pystr where
  "msg_no_records =
     [0x8B66, 0x544A, 0xFF1A, 0x672A, 0x80FD, 0x5728, 0x20, 0x50, 0x44, 0x46, 0x20, 0x6A94,
      0x6848, 0x4E2D, 0x63D0, 0x53D6, 0x5230, 0x4EFB, 0x4F55, 0x63DB, 0x96FB, 0x7D00, 0x9304,
      0x3002]"

text \<open>
  The body of the loop of lines 67 to 71, on the pair of \<open>all_swaps\<close> and what has been
  printed so far.
\<close>

definition process_file ::
  "runtime \<Rightarrow> pystr \<Rightarrow> pystr list \<times> pystr list \<Rightarrow> pystr \<Rightarrow> pystr list \<times> pystr list" where
  "process_file R folder_path acc pdf_file =
     (let file_path = os_path_join R folder_path pdf_file;
          swaps_in_file = extract_swap_stations_from_pdf R file_path
      in (fst acc @ ex_stations swaps_in_file,
          snd acc @ [msg_processing pdf_file] @ ex_printed swaps_in_file))"

definition pdf_files_of :: "runtime \<Rightarrow> pystr \<Rightarrow> pystr list" where
  "pdf_files_of R folder_path =
     filter (\<lambda>f. endswith (str_lower R f) [0x2E, 0x70, 0x64, 0x66]) (os_listdir R folder_path)"

record analysis =
  an_printed :: "pystr list"
  an_total_swaps :: nat
  an_station_counts :: "(pystr \<times> nat) list"

definition analyze_bills_in_folder :: "runtime \<Rightarrow> pystr \<Rightarrow> analysis" where
  "analyze_bills_in_folder R folder_path =
     (let pdf_files = pdf_files_of R folder_path
      in if pdf_files = []
         then \<lparr>an_printed = [msg_no_pdf], an_total_swaps = 0, an_station_counts = []\<rparr>
         else
           (let acc = foldl (process_file R folder_path) ([], [msg_found (length pdf_files)])
                        pdf_files;
                all_swaps = fst acc;
                printed = snd acc @ [msg_done]
            in if all_swaps = []
               then \<lparr>an_printed = printed @ [msg_no_records], an_total_swaps = 0,
                      an_station_counts = []\<rparr>
               else \<lparr>an_printed = printed, an_total_swaps = length all_swaps,
                      an_station_counts = value_counts all_swaps\<rparr>))"

section \<open>Charting (go.py, lines 85 to 119)\<close>

text \<open>
  What matplotlib and pandas answer, which \<open>go.py\<close> does not define: whether the
  font settings of lines 93 and 94 raise, whether the fallback of line 98 raises, whether
  sorting and drawing the given series (lines 100 to 117: \<open>sort_values\<close>,
  \<open>plot(kind='barh')\<close> and the annotations) raises, and whether \<open>savefig\<close> of the
  given file name raises. A chart is represented by the series it depicts; the order of
  its bars is that of pandas' \<open>sort_values\<close>, which orders equal counts in its own way
  and is not modelled.
\<close>

record plotting =
  rc_font_raises :: "exn option"
  rc_fallback_raises :: "exn option"
  draw_raises :: "(pystr \<times> nat) list \<Rightarrow> exn option"
  savefig_raises :: "pystr \<Rightarrow> exn option"

record plot_result =
  pl_printed :: "pystr list"
  pl_saved :: "(pystr \<times> (pystr \<times> nat) list) list"
  pl_raised :: "exn option"

definition msg_no_data :: pystr where
  "msg_no_data = [0x6C92, 0x6709, 0x8CC7, 0x6599, 0x53EF, 0x4F9B, 0x7E6A, 0x5716, 0x3002]"

definition msg_font_warning :: "pystr list" where
  "msg_font_warning =
     [[0x8B66, 0x544A, 0xFF1A, 0x627E, 0x4E0D, 0x5230, 0x20, 0x27, 0x4D, 0x69, 0x63, 0x72, 0x6F,
       0x73, 0x6F, 0x66, 0x74, 0x20, 0x4A, 0x68, 0x65, 0x6E, 0x67, 0x48, 0x65, 0x69, 0x27, 0x20,
       0x5B57, 0x9AD4, 0xFF0C, 0x5716, 0x8868, 0x4E2D, 0x7684, 0x4E2D, 0x6587, 0x53EF, 0x80FD,
       0x7121, 0x6CD5, 0x6B63, 0x5E38, 0x986F, 0x793A, 0x3002],
      [0x60A8, 0x53EF, 0x4EE5, 0x4FEE, 0x6539, 0x7A0B, 0x5F0F, 0x78BC, 0x4E2D, 0x7684, 0x5B57,
       0x9AD4, 0x8A2D, 0x5B9A, 0x3002]]"

definition msg_saved :: "pystr \<Rightarrow> pystr" where
  "msg_saved output_filename =
     [0x0A, 0x5206, 0x6790, 0x5716, 0x8868, 0x5DF2, 0x5132, 0x5B58, 0x70BA, 0x20, 0x27] @
     output_filename @ [0x27]"

text \<open>
  Lines 100 to 119, after the font settings: \<open>printed\<close> is what has been printed so
  far. No handler surrounds these lines, so an exception leaves the function.
\<close>

definition draw_and_save ::
  "plotting \<Rightarrow> pystr list \<Rightarrow> (pystr \<times> nat) list \<Rightarrow> pystr \<Rightarrow> plot_result" where
  "draw_and_save P printed frequent_stations output_filename =
     (case draw_raises P frequent_stations of
        Some e \<Rightarrow> \<lparr>pl_printed = printed, pl_saved = [], pl_raised = Some e\<rparr>
      | None \<Rightarrow>
          (case savefig_raises P output_filename of
             Some e \<Rightarrow> \<lparr>pl_printed = printed, pl_saved = [], pl_raised = Some e\<rparr>
           | None \<Rightarrow>
               \<lparr>pl_printed = printed @ [msg_saved output_filename],
                pl_saved = [(output_filename, frequent_stations)], pl_raised = None\<rparr>))"

definition plot_and_save_analysis ::
  "plotting \<Rightarrow> (pystr \<times> nat) list \<Rightarrow> pystr \<Rightarrow> plot_result" where
  "plot_and_save_analysis P station_counts output_filename =
     (if station_counts = []
      then \<lparr>pl_printed = [msg_no_data], pl_saved = [], pl_raised = None\<rparr>
      else
        (let frequent_stations = filter (\<lambda>p. 1 < snd p) station_counts
         in case rc_font_raises P of
              None \<Rightarrow> draw_and_save P [] frequent_stations output_filename
            | Some e \<Rightarrow>
                (case rc_fallback_raises P of
                   Some e' \<Rightarrow>
                     \<lparr>pl_printed = msg_font_warning, pl_saved = [], pl_raised = Some e'\<rparr>
                 | None \<Rightarrow>
                     draw_and_save P msg_font_warning frequent_stations output_filename)))"

section \<open>Runtimes\<close>

text \<open>
  A runtime is standard on ASCII when its two tables classify the code points below
  U+0080 as Unicode does: the decimal digits are \<open>0\<close> to \<open>9\<close>, and the alphanumeric
  characters are those and the letters.
\<close>

definition ascii_standard :: "runtime \<Rightarrow> bool" where
  "ascii_standard R \<longleftrightarrow>
     (\<forall>c<0x80. uc_isdecimal R c = (0x30 \<le> c \<and> c \<le> 0x39) \<and>
        uc_isalnum R c =
          ((0x30 \<le> c \<and> c \<le> 0x39) \<or> (0x41 \<le> c \<and> c \<le> 0x5A) \<or> (0x61 \<le> c \<and> c \<le> 0x7A)))"

text \<open>
  The runtime of the examples, for a given directory listing and given documents: the
  tables restricted to ASCII and to the ideographs U+4E00 to U+9FA5 (all alphanumeric,
  none a decimal digit), which is every code point the examples contain; \<open>lower\<close> on
  ASCII letters; the POSIX \<open>os.path.join\<close>.
\<close>

definition example_runtime :: "(pystr \<Rightarrow> pystr list) \<Rightarrow> (pystr \<Rightarrow> exn + document) \<Rightarrow> runtime" where
  "example_runtime listing docs =
     \<lparr>uc_isdecimal = (\<lambda>c. 0x30 \<le> c \<and> c \<le> 0x39),
      uc_isalnum = (\<lambda>c. (0x30 \<le> c \<and> c \<le> 0x39) \<or> (0x41 \<le> c \<and> c \<le> 0x5A) \<or>
                         (0x61 \<le> c \<and> c \<le> 0x7A) \<or> (0x4E00 \<le> c \<and> c \<le> 0x9FA5)),
      str_lower = map (\<lambda>c. if 0x41 \<le> c \<and> c \<le> 0x5A then c + 0x20 else c),
      os_path_join = (\<lambda>a b. if startswith b [0x2F] then b
                             else if a = [] \<or> endswith a [0x2F] then a @ b
                             else a @ [0x2F] @ b),
      os_listdir = listing,
      fitz_open = docs\<rparr>"

text \<open>
  The row text of the end-to-end scenario:
  U+967D U+5149 U+516C U+6240 \<open>A 12:30:45 0.85(\<close> U+5B89 U+6642 \<open>)\<close>.
\<close>

definition scenario_row :: pystr where
  "scenario_row =
     [0x967D, 0x5149, 0x516C, 0x6240, 0x41, 0x20, 0x31, 0x32, 0x3A, 0x33, 0x30, 0x3A, 0x34,
      0x35, 0x20, 0x30, 0x2E, 0x38, 0x35, 0x28, 0x5B89, 0x6642, 0x29]"

text \<open>
  The row text of the scenario with a space before the letter:
  U+967D U+5149 U+516C U+6240 \<open> A 12:30:45 0.85(\<close> U+5B89 U+6642 \<open>)\<close>.
\<close>

definition bay_row :: pystr where
  "bay_row =
     [0x967D, 0x5149, 0x516C, 0x6240, 0x20, 0x41, 0x20, 0x31, 0x32, 0x3A, 0x33, 0x30, 0x3A,
      0x34, 0x35, 0x20, 0x30, 0x2E, 0x38, 0x35, 0x28, 0x5B89, 0x6642, 0x29]"

text \<open>
  Three words for the examples: \<open>A\<close> at 2.5, \<open>B\<close> at 1 and \<open>C\<close> at 2.25, emitted
  in this order.
\<close>

definition example_words :: "word list" where
  "example_words =
     [\<lparr>w_y0 = 5 / 2, w_text = [0x41]\<rparr>, \<lparr>w_y0 = 1, w_text = [0x42]\<rparr>,
      \<lparr>w_y0 = 9 / 4, w_text = [0x43]\<rparr>]"

text \<open>
  A page for the examples: its text is the page marker and its one word, at 100.0, is
  the row text of the scenario.
\<close>

definition example_page :: page where
  "example_page =
     \<lparr>get_text_text = Inr page_marker,
      get_text_words = Inr [\<lparr>w_y0 = 100, w_text = scenario_row\<rparr>]\<rparr>"

text \<open>
  A folder for the examples. It lists \<open>a.pdf\<close>, \<open>b.pdf\<close>, \<open>C.PDF\<close> and
  \<open>notes.txt\<close>. Opening \<open>./a.pdf\<close> raises; \<open>./b.pdf\<close> delivers the example page
  and raises on its second page; every other path opens as the example page alone.
  The exception text is \<open>bad\<close>.
\<close>

definition example_listing :: "pystr \<Rightarrow> pystr list" where
  "example_listing d =
     [[0x61, 0x2E, 0x70, 0x64, 0x66], [0x62, 0x2E, 0x70, 0x64, 0x66],
      [0x43, 0x2E, 0x50, 0x44, 0x46], [0x6E, 0x6F, 0x74, 0x65, 0x73, 0x2E, 0x74, 0x78, 0x74]]"

definition example_docs :: "pystr \<Rightarrow> exn + document" where
  "example_docs pdf_path =
     (if pdf_path = [0x2E, 0x2F, 0x61, 0x2E, 0x70, 0x64, 0x66] then Inl [0x62, 0x61, 0x64]
      else if pdf_path = [0x2E, 0x2F, 0x62, 0x2E, 0x70, 0x64, 0x66]
      then Inr [Inr example_page, Inl [0x62, 0x61, 0x64]]
      else Inr [Inr example_page])"

definition example_world :: runtime where
  "example_world = example_runtime example_listing example_docs"

section \<open>Strings: basic facts\<close>

lemma startswith_prefix: "startswith s p \<longleftrightarrow> prefix p s"
  by (induction s p rule: startswith.induct) auto

lemma py_in_sublist: "py_in p s \<longleftrightarrow> sublist p s"
  by (induction s) (simp_all add: startswith_prefix sublist_Cons_right)

lemma py_in_append: "py_in p s \<longleftrightarrow> (\<exists>pre post. s = pre @ p @ post)"
  by (simp add: py_in_sublist sublist_def)

lemma time_pattern_match_iff:
  "time_pattern_match R s \<longleftrightarrow>
     (\<exists>a b d e g h post. s = [a, b, 0x3A, d, e, 0x3A, g, h] @ post \<and>
        uc_isdecimal R a \<and> uc_isdecimal R b \<and> uc_isdecimal R d \<and>
        uc_isdecimal R e \<and> uc_isdecimal R g \<and> uc_isdecimal R h)"
  by (induction R s rule: time_pattern_match.induct) auto

lemma time_pattern_search_iff:
  "time_pattern_search R s \<longleftrightarrow> (\<exists>pre t. s = pre @ t \<and> time_pattern_match R t)"
proof (induction s)
  case Nil
  then show ?case by simp
next
  case (Cons c s)
  show ?case
  proof
    assume "time_pattern_search R (c # s)"
    then consider "time_pattern_match R (c # s)" | "time_pattern_search R s" by auto
    then show "\<exists>pre t. c # s = pre @ t \<and> time_pattern_match R t"
    proof cases
      case 1
      then have "c # s = [] @ (c # s) \<and> time_pattern_match R (c # s)" by simp
      then show ?thesis by blast
    next
      case 2
      with Cons obtain pre t where "s = pre @ t" "time_pattern_match R t" by auto
      then have "c # s = (c # pre) @ t \<and> time_pattern_match R t" by simp
      then show ?thesis by blast
    qed
  next
    assume "\<exists>pre t. c # s = pre @ t \<and> time_pattern_match R t"
    then obtain pre t where pt: "c # s = pre @ t" "time_pattern_match R t" by auto
    show "time_pattern_search R (c # s)"
    proof (cases pre)
      case Nil
      with pt have "time_pattern_match R (c # s)" by simp
      then show ?thesis by simp
    next
      case (Cons x pre')
      with pt have "s = pre' @ t" by simp
      with pt(2) Cons.IH show ?thesis by auto
    qed
  qed
qed

section \<open>Row Reconstructor: facts\<close>

lemma py_round_nearest: "\<bar>x - of_int (py_round x)\<bar> \<le> 1 / 2"
proof -
  have "of_int \<lfloor>x\<rfloor> \<le> x" "x < of_int \<lfloor>x\<rfloor> + 1" by linarith+
  then show ?thesis by (auto simp: py_round_def Let_def)
qed

lemma map_fst_rows_append:
  "map fst (rows_append rows k v) = (if k \<in> fst ` set rows then map fst rows else map fst rows @ [k])"
  by (induction rows k v rule: rows_append.induct) auto

lemma rows_get_rows_append:
  "rows_get (rows_append rows k v) k' = (if k' = k then rows_get rows k @ [v] else rows_get rows k')"
  by (induction rows k v rule: rows_append.induct) (auto simp: rows_get_def)

lemma keys_rows_append: "fst ` set (rows_append rows k v) = insert k (fst ` set rows)"
  by (induction rows k v rule: rows_append.induct) auto

lemma foldl_rows_keys:
  "set (map fst (foldl (\<lambda>rows w. rows_append rows (py_round (w_y0 w)) (w_text w)) rows ws)) =
     fst ` set rows \<union> (\<lambda>w. py_round (w_y0 w)) ` set ws"
  by (induction ws arbitrary: rows) (simp_all add: keys_rows_append)

lemma foldl_rows_distinct:
  "distinct (map fst rows) \<Longrightarrow>
   distinct (map fst (foldl (\<lambda>rows w. rows_append rows (py_round (w_y0 w)) (w_text w)) rows ws))"
  by (induction ws arbitrary: rows) (simp_all add: map_fst_rows_append)

lemma foldl_rows_get:
  "rows_get (foldl (\<lambda>rows w. rows_append rows (py_round (w_y0 w)) (w_text w)) rows ws) k =
     rows_get rows k @ map w_text (filter (\<lambda>w. py_round (w_y0 w) = k) ws)"
  by (induction ws arbitrary: rows) (simp_all add: rows_get_rows_append)

lemma group_words_keys: "set (map fst (group_words ws)) = (\<lambda>w. py_round (w_y0 w)) ` set ws"
  unfolding group_words_def by (simp only: foldl_rows_keys) simp

lemma group_words_distinct: "distinct (map fst (group_words ws))"
  unfolding group_words_def by (rule foldl_rows_distinct) simp

lemma group_words_get:
  "rows_get (group_words ws) k = map w_text (filter (\<lambda>w. py_round (w_y0 w) = k) ws)"
  unfolding group_words_def by (simp only: foldl_rows_get) (simp add: rows_get_def)

lemma page_rows_keys: "map fst (page_rows ws) = sort (map fst (group_words ws))"
  by (simp add: page_rows_def Let_def comp_def)

lemma page_rows_member:
  "(y, row_text) \<in> set (page_rows ws) \<longleftrightarrow>
     (\<exists>w\<in>set ws. py_round (w_y0 w) = y) \<and>
     row_text = concat (map w_text (filter (\<lambda>w. py_round (w_y0 w) = y) ws))"
proof -
  have "(y, row_text) \<in> set (page_rows ws) \<longleftrightarrow>
          y \<in> set (map fst (group_words ws)) \<and> row_text = concat (rows_get (group_words ws) y)"
    by (auto simp: page_rows_def Let_def)
  then show ?thesis
    by (simp only: group_words_keys group_words_get) auto
qed

lemma example_rounds: "py_round (5 / 2) = 2" "py_round 1 = 1" "py_round (9 / 4) = 2" "py_round (7/2) = 4"
  by (simp_all add: py_round_def Let_def)

lemma example_page_rows:
  "page_rows example_words = [(1, [0x42]), (2, [0x41, 0x43])]"
  by (simp add: example_words_def page_rows_def group_words_def example_rounds rows_get_def)

section \<open>Station Extractor: facts\<close>

lemma strip_sublist: "sublist (strip s) s"
proof -
  have "suffix (dropWhile isspace (rev (dropWhile isspace s))) (rev (dropWhile isspace s))"
    by (rule suffix_dropWhile)
  then have "prefix (strip s) (dropWhile isspace s)"
    unfolding strip_def by (metis rev_rev_ident suffix_to_prefix)
  moreover have "suffix (dropWhile isspace s) s"
    by (rule suffix_dropWhile)
  ultimately show ?thesis
    by (meson prefix_imp_sublist suffix_imp_sublist sublist_order.order_trans)
qed

lemma strip_last: "strip s \<noteq> [] \<Longrightarrow> \<not> isspace (last (strip s))"
  unfolding strip_def by (simp add: last_rev hd_dropWhile)

lemma backtrack_Some:
  "backtrack k s n = Some m \<Longrightarrow> \<exists>j i. 0 < j \<and> j \<le> n \<and> k (drop j s) = Some i \<and> m = j + i"
proof (induction n)
  case 0
  then show ?case by simp
next
  case (Suc n)
  show ?case
  proof (cases "k (drop (Suc n) s)")
    case None
    with Suc obtain j i where "0 < j" "j \<le> n" "k (drop j s) = Some i" "m = j + i" by auto
    then have "0 < j \<and> j \<le> Suc n \<and> k (drop j s) = Some i \<and> m = j + i" by simp
    then show ?thesis by blast
  next
    case (Some i)
    with Suc.prems have "0 < Suc n \<and> Suc n \<le> Suc n \<and> k (drop (Suc n) s) = Some i \<and> m = Suc n + i"
      by simp
    then show ?thesis by blast
  qed
qed

lemma bay_letter_at_end_Some:
  "bay_letter_at_end t = Some i \<Longrightarrow>
     i = 1 \<and> (\<exists>c. 0x41 \<le> c \<and> c \<le> 0x44 \<and> (t = [c] \<or> t = [c, 0x0A]))"
  by (auto simp: bay_letter_at_end_def split: list.splits if_splits)

lemma bay_pattern_match_rest:
  assumes "bay_pattern_match s = Some m"
  shows "drop m s = [] \<or> drop m s = [0x0A]"
proof -
  from assms obtain j i where ji: "bay_letter_at_end (drop j s) = Some i" "m = j + i"
    unfolding bay_pattern_match_def greedy_plus_def by (blast dest: backtrack_Some)
  from bay_letter_at_end_Some [OF ji(1)] obtain c where
    "i = 1" "drop j s = [c] \<or> drop j s = [c, 0x0A]" by blast
  moreover have "drop m s = drop i (drop j s)"
    by (simp only: drop_drop ji(2) add.commute)
  ultimately show ?thesis by fastforce
qed

lemma bay_sub_prefix: "s = [] \<or> last s \<noteq> 0x0A \<Longrightarrow> prefix (bay_sub s) s"
proof (induction s rule: bay_sub.induct)
  case 1
  then show ?case by simp
next
  case (2 c s)
  show ?case
  proof (cases "bay_pattern_match (c # s)")
    case None
    from "2.prems" have "s = [] \<or> last s \<noteq> 0x0A" by (auto split: if_splits)
    with "2.IH"(1) None have "prefix (bay_sub s) s" by simp
    with None show ?thesis by simp
  next
    case (Some m)
    from bay_pattern_match_rest [OF Some] have "drop m (c # s) = [] \<or> drop m (c # s) = [0x0A]" .
    moreover have "drop m (c # s) \<noteq> [0x0A]"
    proof
      assume d: "drop m (c # s) = [0x0A]"
      have "last (drop m (c # s)) = last (c # s)"
        by (rule last_drop) (use d in \<open>auto simp: not_le [symmetric]\<close>)
      with d "2.prems" show False by simp
    qed
    ultimately have "drop m (c # s) = []" by simp
    with Some show ?thesis by simp
  qed
qed

lemma clean_station_sublist:
  assumes "name \<in> set (clean_station station)"
  shows "sublist name (strip station) \<and> \<not> py_in exclusion_free_period (strip station) \<and>
         \<not> py_in exclusion_quantity (strip station)"
proof -
  let ?t = "strip station"
  from assms have name: "name = strip (bay_sub ?t)"
    and ex: "\<not> py_in exclusion_free_period ?t" "\<not> py_in exclusion_quantity ?t"
    by (auto simp: clean_station_def Let_def split: if_splits)
  have "?t = [] \<or> last ?t \<noteq> 0x0A"
    using strip_last [of station] by (auto simp: isspace_def)
  then have "prefix (bay_sub ?t) ?t" by (rule bay_sub_prefix)
  then have "sublist (bay_sub ?t) ?t" by (rule prefix_imp_sublist)
  with strip_sublist [of "bay_sub ?t"] have "sublist name ?t"
    unfolding name by (rule sublist_order.order_trans)
  with ex show ?thesis by simp
qed

lemma scenario_findall:
  "ascii_standard R \<Longrightarrow> station_findall R scenario_row = [[0x967D, 0x5149, 0x516C, 0x6240]]"
  by (simp add: ascii_standard_def scenario_row_def station_pattern_match_def greedy_plus_def station_char_def isspace_def station_suffixes_def)

lemma scenario_is_swap_row: "ascii_standard R \<Longrightarrow> is_swap_row R scenario_row"
  by (simp add: ascii_standard_def is_swap_row_def scenario_row_def unit_marker_def)

lemma clean_scenario: "clean_station [0x967D, 0x5149, 0x516C, 0x6240] = [[0x967D, 0x5149, 0x516C, 0x6240]]"
  by (simp add: clean_station_def strip_def isspace_def exclusion_free_period_def exclusion_quantity_def bay_pattern_match_def greedy_plus_def bay_letter_at_end_def)

lemma example_runtime_standard: "ascii_standard (example_runtime listing docs)"
  by (simp add: ascii_standard_def example_runtime_def)

lemma scenario_row_stations:
  "ascii_standard R \<Longrightarrow> row_stations R scenario_row = [[0x967D, 0x5149, 0x516C, 0x6240]]"
  by (simp add: row_stations_def scenario_is_swap_row scenario_findall clean_scenario)

section \<open>The substitution of line 48: facts\<close>

lemma ends_with_bay_iff:
  "ends_with_bay s \<longleftrightarrow> (\<exists>b w l. s = b @ [w, l] \<and> isspace w \<and> 0x41 \<le> l \<and> l \<le> 0x44)"
proof
  assume "ends_with_bay s"
  then obtain l w front where r: "rev s = l # w # front" and p: "0x41 \<le> l" "l \<le> 0x44" "isspace w"
    by (auto simp: ends_with_bay_def split: list.splits)
  from r have "s = rev front @ [w, l]" by (simp add: rev_swap [symmetric] del: rev_swap)
  with p show "\<exists>b w l. s = b @ [w, l] \<and> isspace w \<and> 0x41 \<le> l \<and> l \<le> 0x44" by blast
next
  assume "\<exists>b w l. s = b @ [w, l] \<and> isspace w \<and> 0x41 \<le> l \<and> l \<le> 0x44"
  then show "ends_with_bay s" by (auto simp: ends_with_bay_def)
qed

lemma ends_with_bay_last: "ends_with_bay s \<Longrightarrow> s \<noteq> [] \<and> 0x41 \<le> last s \<and> last s \<le> 0x44"
  by (auto simp: ends_with_bay_iff)

lemma ends_with_bay_Cons: "ends_with_bay s \<Longrightarrow> ends_with_bay (c # s)"
proof -
  assume "ends_with_bay s"
  then obtain b w l where "s = b @ [w, l]" "isspace w" "0x41 \<le> l" "l \<le> 0x44"
    unfolding ends_with_bay_iff by blast
  then have "c # s = (c # b) @ [w, l] \<and> isspace w \<and> 0x41 \<le> l \<and> l \<le> 0x44" by simp
  then show ?thesis unfolding ends_with_bay_iff by blast
qed

lemma bay_pattern_match_Some:
  assumes "bay_pattern_match s = Some m"
  shows "\<exists>ws l. ws \<noteq> [] \<and> (\<forall>x\<in>set ws. isspace x) \<and> 0x41 \<le> l \<and> l \<le> 0x44 \<and>
           (s = ws @ [l] \<or> s = ws @ [l, 0x0A]) \<and> m = Suc (length ws)"
proof -
  from assms obtain j i where j: "0 < j" "j \<le> length (takeWhile isspace s)"
    and k: "bay_letter_at_end (drop j s) = Some i" and m: "m = j + i"
    unfolding bay_pattern_match_def greedy_plus_def by (blast dest: backtrack_Some)
  from bay_letter_at_end_Some [OF k] obtain l where i: "i = 1" and l: "0x41 \<le> l" "l \<le> 0x44"
    and d: "drop j s = [l] \<or> drop j s = [l, 0x0A]" by blast
  let ?ws = "take j s"
  have "take j (takeWhile isspace s @ dropWhile isspace s) = take j (takeWhile isspace s)"
    using j(2) by (simp only: take_append) simp
  then have "take j s = take j (takeWhile isspace s)"
    by (simp only: takeWhile_dropWhile_id)
  then have "set ?ws \<subseteq> set (takeWhile isspace s)" by (simp add: set_take_subset)
  then have sp: "\<forall>x\<in>set ?ws. isspace x" by (auto dest: set_takeWhileD)
  have "j \<le> length s" using j(2) length_takeWhile_le [of isspace s] by linarith
  with j(1) have ne: "?ws \<noteq> []" and len: "length ?ws = j" by auto
  have "?ws @ drop j s = s" by (rule append_take_drop_id)
  with d have e: "s = ?ws @ [l] \<or> s = ?ws @ [l, 0x0A]"
    by (metis (no_types))
  have m': "m = Suc (length ?ws)" using m i len by simp
  from ne sp l e m' show ?thesis by blast
qed

lemma bay_pattern_match_whole:
  assumes "ws \<noteq> []" "\<forall>x\<in>set ws. isspace x" "0x41 \<le> l" "l \<le> 0x44"
  shows "bay_pattern_match (ws @ [l]) = Some (Suc (length ws))"
proof -
  from assms(3,4) have "\<not> isspace l" by (auto simp: isspace_def)
  with assms(2) have "takeWhile isspace (ws @ [l]) = ws" by (simp add: takeWhile_append2)
  moreover obtain n where n: "length ws = Suc n" using assms(1) by (cases ws) auto
  moreover have "bay_letter_at_end [l] = Some 1" using assms(3,4) by (simp add: bay_letter_at_end_def)
  ultimately show ?thesis by (simp add: bay_pattern_match_def greedy_plus_def)
qed

lemma bay_sub_strips:
  assumes "ws \<noteq> []" "\<forall>x\<in>set ws. isspace x" "0x41 \<le> l" "l \<le> 0x44"
  shows "b = [] \<or> \<not> isspace (last b) \<Longrightarrow> bay_sub (b @ ws @ [l]) = b"
proof (induction b)
  case Nil
  obtain c s where cs: "ws @ [l] = c # s" by (cases ws) auto
  have "bay_sub (c # s) = bay_sub (drop (Suc (length ws)) (c # s))"
    using bay_pattern_match_whole [OF assms] by (simp add: cs del: drop_Suc_Cons)
  also have "length (c # s) = Suc (length ws)" by (simp only: cs [symmetric]) simp
  then have "drop (Suc (length ws)) (c # s) = []" by (simp only: drop_all order_refl)
  finally show ?case by (simp add: cs)
next
  case (Cons x b)
  then have IH: "bay_sub (b @ ws @ [l]) = b" by (auto split: if_splits)
  have "bay_pattern_match (x # b @ ws @ [l]) = None"
  proof (rule ccontr)
    assume "bay_pattern_match (x # b @ ws @ [l]) \<noteq> None"
    then obtain m where "bay_pattern_match (x # b @ ws @ [l]) = Some m" by auto
    from bay_pattern_match_Some [OF this] obtain ws' l' where w': "\<forall>x\<in>set ws'. isspace x"
      and e: "x # b @ ws @ [l] = ws' @ [l'] \<or> x # b @ ws @ [l] = ws' @ [l', 0x0A]" by blast
    have "x # b @ ws @ [l] \<noteq> ws' @ [l', 0x0A]"
    proof
      assume "x # b @ ws @ [l] = ws' @ [l', 0x0A]"
      then have "last (x # b @ ws @ [l]) = last (ws' @ [l', 0x0A])" by (rule arg_cong)
      with assms(3) show False by simp
    qed
    with e have "((x # b) @ ws) @ [l] = ws' @ [l']" by simp
    then have "(x # b) @ ws = ws'" by (simp only: append1_eq_conv)
    moreover have "last (x # b) \<in> set (x # b)" by (rule last_in_set) simp
    ultimately have "last (x # b) \<in> set ws'" by auto
    with w' have "isspace (last (x # b))" by blast
    with Cons.prems show False by simp
  qed
  with IH show ?case by simp
qed

lemma bay_sub_unchanged:
  "t = [] \<or> \<not> isspace (last t) \<Longrightarrow> \<not> ends_with_bay t \<Longrightarrow> bay_sub t = t"
proof (induction t rule: bay_sub.induct)
  case 1
  then show ?case by simp
next
  case (2 c s)
  have none: "bay_pattern_match (c # s) = None"
  proof (rule ccontr)
    assume "bay_pattern_match (c # s) \<noteq> None"
    then obtain m where "bay_pattern_match (c # s) = Some m" by auto
    from bay_pattern_match_Some [OF this] obtain ws l where w: "ws \<noteq> []" "\<forall>x\<in>set ws. isspace x"
      and l: "0x41 \<le> l" "l \<le> 0x44"
      and e: "c # s = ws @ [l] \<or> c # s = ws @ [l, 0x0A]" by blast
    from e show False
    proof
      assume e1: "c # s = ws @ [l]"
      from w have sp: "isspace (last ws)" by simp
      from w(1) have "butlast ws @ [last ws] = ws" by (rule append_butlast_last_id)
      then have "ws @ [l] = butlast ws @ [last ws, l]" by (metis append.assoc append_Cons append_Nil)
      with e1 have "c # s = butlast ws @ [last ws, l]" by simp
      with sp l have "ends_with_bay (c # s)" unfolding ends_with_bay_iff by blast
      with "2.prems" show False by simp
    next
      assume "c # s = ws @ [l, 0x0A]"
      then have "last (c # s) = 0x0A" by simp
      with "2.prems"(1) show False by (simp add: isspace_def)
    qed
  qed
  from "2.prems" have "s = [] \<or> \<not> isspace (last s)" "\<not> ends_with_bay s"
    by (auto dest: ends_with_bay_Cons split: if_splits)
  with "2.IH"(1) [OF none] have "bay_sub s = s" by simp
  with none show ?case by simp
qed

lemma match_alternatives_Some:
  "match_alternatives alts t = Some i \<Longrightarrow> \<exists>a\<in>set alts. i = length a \<and> prefix a t"
  by (induction alts) (auto simp: startswith_prefix split: if_splits)

lemma station_pattern_match_suffix:
  assumes "station_pattern_match R s = Some m"
  shows "\<exists>a\<in>set station_suffixes. suffix a (take m s)"
proof -
  from assms obtain j i where k: "match_alternatives station_suffixes (drop j s) = Some i"
    and m: "m = j + i"
    unfolding station_pattern_match_def greedy_plus_def by (blast dest: backtrack_Some)
  from match_alternatives_Some [OF k] obtain a where a: "a \<in> set station_suffixes"
    "i = length a" "prefix a (drop j s)" by blast
  from a(3) obtain r where "drop j s = a @ r" by (auto simp: prefix_def)
  then have "take i (drop j s) = a" using a(2) by simp
  then have "take m s = take j s @ a" by (simp only: m take_add)
  then have "suffix a (take m s)" by (simp add: suffix_def)
  with a(1) show ?thesis by blast
qed

lemma station_findall_suffix:
  "station \<in> set (station_findall R row_text) \<Longrightarrow> \<exists>a\<in>set station_suffixes. suffix a station"
proof (induction R row_text rule: station_findall.induct)
  case (1 R)
  then show ?case by simp
next
  case (2 R c s)
  show ?case
  proof (cases "station_pattern_match R (c # s)")
    case None
    with 2 show ?thesis by simp
  next
    case (Some m)
    with "2.prems" have "station = take m (c # s) \<or>
        station \<in> set (station_findall R (drop m (c # s)))" by simp
    then show ?thesis
    proof
      assume "station = take m (c # s)"
      with station_pattern_match_suffix [OF Some] show ?thesis by simp
    next
      assume "station \<in> set (station_findall R (drop m (c # s)))"
      with "2.IH"(2) [OF Some] show ?thesis by simp
    qed
  qed
qed

lemma station_suffix_last:
  assumes "a \<in> set station_suffixes" "suffix a station"
  shows "station \<noteq> [] \<and> \<not> isspace (last station) \<and> \<not> (0x41 \<le> last station \<and> last station \<le> 0x44)"
proof -
  from assms(2) obtain pre where p: "station = pre @ a" by (auto simp: suffix_def)
  from assms(1) have "a \<noteq> [] \<and> \<not> isspace (last a) \<and> \<not> (0x41 \<le> last a \<and> last a \<le> 0x44)"
    by (auto simp: station_suffixes_def isspace_def)
  with p show ?thesis by simp
qed

lemma strip_keeps_last:
  assumes "s \<noteq> []" "\<not> isspace (last s)"
  shows "strip s = dropWhile isspace s \<and> strip s \<noteq> [] \<and> last (strip s) = last s"
proof -
  let ?d = "dropWhile isspace s"
  from assms have ne: "?d \<noteq> []" by (auto simp: dropWhile_eq_Nil_conv)
  have "last (takeWhile isspace s @ ?d) = last ?d" using ne by (rule last_appendR)
  then have l: "last ?d = last s" by simp
  with ne assms(2) have "\<not> isspace (hd (rev ?d))" by (simp add: hd_rev)
  moreover have "rev ?d \<noteq> []" using ne by simp
  ultimately have "dropWhile isspace (rev ?d) = rev ?d" by (cases "rev ?d") auto
  then have "strip s = ?d" by (simp add: strip_def)
  with ne l show ?thesis by simp
qed

lemma candidate_clean:
  assumes "station \<in> set (station_findall R row_text)"
  shows "\<not> ends_with_bay station \<and> \<not> ends_with_bay (strip station) \<and>
         clean_station station =
           (if py_in exclusion_free_period (strip station) \<or>
               py_in exclusion_quantity (strip station)
            then [] else [strip station])"
proof -
  from station_findall_suffix [OF assms] obtain a where "a \<in> set station_suffixes"
    "suffix a station" by blast
  from station_suffix_last [OF this] have ne: "station \<noteq> []" and sp: "\<not> isspace (last station)"
    and l: "\<not> (0x41 \<le> last station \<and> last station \<le> 0x44)" by blast+
  from strip_keeps_last [OF ne sp] have st: "strip station = dropWhile isspace station"
    "strip station \<noteq> []" "last (strip station) = last station" by blast+
  have b1: "\<not> ends_with_bay station" using l by (auto dest: ends_with_bay_last)
  have b2: "\<not> ends_with_bay (strip station)" using l st(3) by (auto dest: ends_with_bay_last)
  have "bay_sub (strip station) = strip station"
    by (rule bay_sub_unchanged) (simp_all add: st(3) sp b2)
  moreover have "strip (strip station) = strip station"
    using strip_keeps_last [OF st(2)] sp st(1,3) by simp
  ultimately show ?thesis using b1 b2 st(2) by (simp add: clean_station_def)
qed

lemma bay_row_findall:
  "ascii_standard R \<Longrightarrow> station_findall R bay_row = [[0x967D, 0x5149, 0x516C, 0x6240]]"
  by (simp add: ascii_standard_def bay_row_def station_pattern_match_def greedy_plus_def
      station_char_def isspace_def station_suffixes_def)

section \<open>Documents and folders: facts\<close>

lemma pages_loop_append:
  "map (page_outcome R) pages = map Inr founds \<Longrightarrow>
   pages_loop R (pages @ rest) stations = pages_loop R rest (stations @ concat founds)"
proof (induction pages arbitrary: founds stations)
  case Nil
  then show ?case by simp
next
  case (Cons x pages)
  then obtain found founds' where f: "founds = found # founds'"
    "page_outcome R x = Inr found" "map (page_outcome R) pages = map Inr founds'"
    by (cases founds) auto
  with Cons.IH [OF f(3)] show ?case by simp
qed

lemma example_page_stations:
  "ascii_standard R \<Longrightarrow> page_stations R example_page = Inr [[0x967D, 0x5149, 0x516C, 0x6240]]"
proof -
  assume R: "ascii_standard R"
  have r: "py_round 100 = 100" by (simp add: py_round_def Let_def)
  have "page_rows [\<lparr>w_y0 = 100, w_text = scenario_row\<rparr>] = [(100, scenario_row)]"
    by (simp add: page_rows_def group_words_def r rows_get_def)
  moreover have "py_in page_marker page_marker" by (simp add: py_in_sublist)
  ultimately show ?thesis
    by (simp add: page_stations_def example_page_def scenario_row_stations [OF R])
qed

lemma example_world_standard: "ascii_standard example_world"
  unfolding example_world_def by (rule example_runtime_standard)

lemma example_world_open:
  "fitz_open example_world [0x2E, 0x2F, 0x61, 0x2E, 0x70, 0x64, 0x66] = Inl [0x62, 0x61, 0x64]"
  "fitz_open example_world [0x2E, 0x2F, 0x62, 0x2E, 0x70, 0x64, 0x66] =
     Inr [Inr example_page, Inl [0x62, 0x61, 0x64]]"
  "fitz_open example_world [0x2E, 0x2F, 0x43, 0x2E, 0x50, 0x44, 0x46] = Inr [Inr example_page]"
  by (simp_all add: example_world_def example_runtime_def example_docs_def)

lemma example_world_outcome:
  "page_outcome example_world (Inr example_page) = Inr [[0x967D, 0x5149, 0x516C, 0x6240]]"
  "page_outcome example_world (Inl e) = Inl e"
  by (simp_all add: page_outcome_def example_page_stations example_world_standard)

lemma example_world_extract:
  "extract_swap_stations_from_pdf example_world [0x2E, 0x2F, 0x61, 0x2E, 0x70, 0x64, 0x66] =
     \<lparr>ex_stations = [],
      ex_printed = [error_message [0x2E, 0x2F, 0x61, 0x2E, 0x70, 0x64, 0x66] [0x62, 0x61, 0x64]]\<rparr>"
  "extract_swap_stations_from_pdf example_world [0x2E, 0x2F, 0x62, 0x2E, 0x70, 0x64, 0x66] =
     \<lparr>ex_stations = [[0x967D, 0x5149, 0x516C, 0x6240]],
      ex_printed = [error_message [0x2E, 0x2F, 0x62, 0x2E, 0x70, 0x64, 0x66] [0x62, 0x61, 0x64]]\<rparr>"
  "extract_swap_stations_from_pdf example_world [0x2E, 0x2F, 0x43, 0x2E, 0x50, 0x44, 0x46] =
     \<lparr>ex_stations = [[0x967D, 0x5149, 0x516C, 0x6240]], ex_printed = []\<rparr>"
  by (simp_all add: extract_swap_stations_from_pdf_def example_world_open example_world_outcome)

lemma extract_printed:
  "ex_printed (extract_swap_stations_from_pdf R pdf_path) =
     (case document_error R pdf_path of None \<Rightarrow> [] | Some e \<Rightarrow> [error_message pdf_path e])"
  by (auto simp: extract_swap_stations_from_pdf_def document_error_def
      split: sum.splits prod.splits option.splits)

lemma foldl_process_file:
  "foldl (process_file R folder_path) acc fs =
     (fst acc @ concat (map (\<lambda>f. ex_stations
          (extract_swap_stations_from_pdf R (os_path_join R folder_path f))) fs),
      snd acc @ concat (map (\<lambda>f. msg_processing f #
          ex_printed (extract_swap_stations_from_pdf R (os_path_join R folder_path f))) fs))"
  by (induction fs arbitrary: acc) (simp_all add: process_file_def Let_def)

lemma value_counts_Nil: "value_counts [] = []"
  by (simp add: value_counts_def)

lemma analyze_printed:
  "f \<in> set (pdf_files_of R folder_path) \<Longrightarrow>
   m \<in> set (msg_processing f #
        ex_printed (extract_swap_stations_from_pdf R (os_path_join R folder_path f))) \<Longrightarrow>
   m \<in> set (an_printed (analyze_bills_in_folder R folder_path))"
  by (auto simp: analyze_bills_in_folder_def Let_def foldl_process_file)

lemma example_world_files:
  "pdf_files_of example_world [0x2E] =
     [[0x61, 0x2E, 0x70, 0x64, 0x66], [0x62, 0x2E, 0x70, 0x64, 0x66], [0x43, 0x2E, 0x50, 0x44, 0x46]]"
  by (simp add: pdf_files_of_def example_world_def example_runtime_def example_listing_def
      endswith_def)

lemma example_world_join:
  "os_path_join example_world [0x2E] [0x61, 0x2E, 0x70, 0x64, 0x66] =
     [0x2E, 0x2F, 0x61, 0x2E, 0x70, 0x64, 0x66]"
  "os_path_join example_world [0x2E] [0x62, 0x2E, 0x70, 0x64, 0x66] =
     [0x2E, 0x2F, 0x62, 0x2E, 0x70, 0x64, 0x66]"
  "os_path_join example_world [0x2E] [0x43, 0x2E, 0x50, 0x44, 0x46] =
     [0x2E, 0x2F, 0x43, 0x2E, 0x50, 0x44, 0x46]"
  by (simp_all add: example_world_def example_runtime_def endswith_def)

lemma example_world_errors:
  "document_error example_world [0x2E, 0x2F, 0x61, 0x2E, 0x70, 0x64, 0x66] = Some [0x62, 0x61, 0x64]"
  "document_error example_world [0x2E, 0x2F, 0x62, 0x2E, 0x70, 0x64, 0x66] = Some [0x62, 0x61, 0x64]"
  by (simp_all add: document_error_def example_world_open example_world_outcome)

section \<open>Aggregator and charting: facts\<close>

lemma sum_bump: "sum_list (map snd (bump t k)) = Suc (sum_list (map snd t))"
  by (induction t k rule: bump.induct) simp_all

lemma sum_foldl_bump: "sum_list (map snd (foldl bump t xs)) = sum_list (map snd t) + length xs"
  by (induction xs arbitrary: t) (simp_all add: sum_bump)

lemma sum_insort_key: "sum_list (map g (insort_key f x xs)) = g x + sum_list (map g xs)"
  for g :: "'a \<Rightarrow> nat" and f :: "'a \<Rightarrow> int"
  by (induction xs) simp_all

lemma sum_sort_key: "sum_list (map g (sort_key f xs)) = sum_list (map g xs)"
  for g :: "'a \<Rightarrow> nat" and f :: "'a \<Rightarrow> int"
  by (induction xs) (simp_all add: sum_insort_key)

lemma sum_value_counts: "sum_list (map snd (value_counts xs)) = length xs"
  by (simp add: value_counts_def sum_sort_key sum_foldl_bump)

lemma filter_all_ones:
  "\<forall>p\<in>set station_counts. snd p = 1 \<Longrightarrow> filter (\<lambda>p. 1 < snd p) station_counts = []"
  for station_counts :: "(pystr \<times> nat) list"
  by (induction station_counts) auto

lemma msg_no_data_not_printed:
  "msg_no_data \<notin> set (pl_printed (draw_and_save P [] series output_filename))"
  "msg_no_data \<notin> set (pl_printed (draw_and_save P msg_font_warning series output_filename))"
  by (simp_all add: draw_and_save_def msg_no_data_def msg_saved_def msg_font_warning_def
      split: option.splits)

lemma draw_and_save_raises:
  "draw_raises P series = Some e \<Longrightarrow>
   draw_and_save P printed series output_filename =
     \<lparr>pl_printed = printed, pl_saved = [], pl_raised = Some e\<rparr>"
  by (simp add: draw_and_save_def)

lemma example_world_analysis:
  "an_total_swaps (analyze_bills_in_folder example_world [0x2E]) = 2"
  "an_station_counts (analyze_bills_in_folder example_world [0x2E]) =
     [([0x967D, 0x5149, 0x516C, 0x6240], 2)]"
  by (simp_all only: analyze_bills_in_folder_def Let_def foldl_process_file)
     (simp_all add: example_world_files example_world_join example_world_extract
        value_counts_def)

section \<open>Claims\<close>

text \<open>
  C1, as stated, at the document \<open>./b.pdf\<close> of the example folder, which delivers one
  page with a swap row and raises on the next: the extraction prints the error message
  and returns the name found on the first page, not the empty list.
\<close>

theorem C1_partial_records_kept_counterexample:
  "extract_swap_stations_from_pdf example_world [0x2E, 0x2F, 0x62, 0x2E, 0x70, 0x64, 0x66] =
     \<lparr>ex_stations = [[0x967D, 0x5149, 0x516C, 0x6240]],
      ex_printed = [error_message [0x2E, 0x2F, 0x62, 0x2E, 0x70, 0x64, 0x66] [0x62, 0x61, 0x64]]\<rparr>"
  by (rule example_world_extract)

text \<open>
  C1, amended. A document that cannot be opened contributes the empty list. A document
  whose processing raises after some pages have been processed contributes exactly the
  names extracted from those pages, in order; the pages after the failing one are not
  read. In both cases the error message is printed.
\<close>

theorem C1_failed_document_keeps_earlier_records:
  "(fitz_open R pdf_path = Inl e \<longrightarrow>
      extract_swap_stations_from_pdf R pdf_path =
        \<lparr>ex_stations = [], ex_printed = [error_message pdf_path e]\<rparr>) \<and>
   (fitz_open R pdf_path = Inr (pages @ bad # rest) \<and>
    map (page_outcome R) pages = map Inr founds \<and> page_outcome R bad = Inl e \<longrightarrow>
      extract_swap_stations_from_pdf R pdf_path =
        \<lparr>ex_stations = concat founds, ex_printed = [error_message pdf_path e]\<rparr>)"
  by (simp add: extract_swap_stations_from_pdf_def pages_loop_append)

theorem C1_failed_document_keeps_earlier_records_witness:
  "fitz_open example_world [0x2E, 0x2F, 0x61, 0x2E, 0x70, 0x64, 0x66] = Inl [0x62, 0x61, 0x64] \<and>
   ex_stations (extract_swap_stations_from_pdf example_world
     [0x2E, 0x2F, 0x61, 0x2E, 0x70, 0x64, 0x66]) = [] \<and>
   fitz_open example_world [0x2E, 0x2F, 0x62, 0x2E, 0x70, 0x64, 0x66] =
     Inr ([Inr example_page] @ Inl [0x62, 0x61, 0x64] # []) \<and>
   map (page_outcome example_world) [Inr example_page] =
     map Inr [[[0x967D, 0x5149, 0x516C, 0x6240]]] \<and>
   page_outcome example_world (Inl [0x62, 0x61, 0x64]) = Inl [0x62, 0x61, 0x64] \<and>
   ex_stations (extract_swap_stations_from_pdf example_world
     [0x2E, 0x2F, 0x62, 0x2E, 0x70, 0x64, 0x66]) = concat [[[0x967D, 0x5149, 0x516C, 0x6240]]]"
proof -
  let ?a = "[0x2E, 0x2F, 0x61, 0x2E, 0x70, 0x64, 0x66] :: pystr"
  let ?b = "[0x2E, 0x2F, 0x62, 0x2E, 0x70, 0x64, 0x66] :: pystr"
  let ?bad = "[0x62, 0x61, 0x64] :: exn"
  have a: "fitz_open example_world ?a = Inl ?bad" by (rule example_world_open)
  have b: "fitz_open example_world ?b = Inr ([Inr example_page] @ Inl ?bad # [])"
    by (simp add: example_world_open)
  have p: "map (page_outcome example_world) [Inr example_page] =
      map Inr [[[0x967D, 0x5149, 0x516C, 0x6240]]]"
    by (simp add: example_world_outcome)
  have q: "page_outcome example_world (Inl ?bad) = Inl ?bad" by (rule example_world_outcome)
  from C1_failed_document_keeps_earlier_records [of example_world ?a ?bad] a
  have "ex_stations (extract_swap_stations_from_pdf example_world ?a) = []" by simp
  moreover
  from C1_failed_document_keeps_earlier_records
    [of example_world ?b ?bad "[Inr example_page]" "Inl ?bad" "[]" "[[[0x967D, 0x5149, 0x516C, 0x6240]]]"]
    b p q
  have "ex_stations (extract_swap_stations_from_pdf example_world ?b) =
      concat [[[0x967D, 0x5149, 0x516C, 0x6240]]]" by simp
  ultimately show ?thesis using a b p q by blast
qed

text \<open>
  C2. The Row Classifier accepts a row text exactly when the text contains a substring
  made of two digits, a colon, two digits, a colon and two digits (a digit is what the
  regex class \<open>\d\<close> matches; no range check on the values), and also contains the
  unit marker; without either the row is rejected.
\<close>

theorem C2_row_classifier_iff:
  "is_swap_row R row_text \<longleftrightarrow>
     (\<exists>pre a b d e g h post.
        row_text = pre @ [a, b, 0x3A, d, e, 0x3A, g, h] @ post \<and>
        uc_isdecimal R a \<and> uc_isdecimal R b \<and> uc_isdecimal R d \<and>
        uc_isdecimal R e \<and> uc_isdecimal R g \<and> uc_isdecimal R h) \<and>
     (\<exists>pre post. row_text = pre @ unit_marker @ post)"
  unfolding is_swap_row_def py_in_append time_pattern_search_iff time_pattern_match_iff
  by blast

text \<open>
  C3. For every list of words of a page: the rows are emitted in ascending order of
  their keys and no key comes twice; the key of a word, \<open>round\<close> of its vertical
  coordinate, is an integer nearest to the coordinate; every word is in exactly one row,
  the one of its key; and the text of a row is the concatenation, with no separator, of
  the texts of the words of that key in the order in which the words were emitted.
\<close>

theorem C3_row_reconstructor:
  "sorted (map fst (page_rows ws)) \<and> distinct (map fst (page_rows ws)) \<and>
   (\<forall>w\<in>set ws. \<bar>w_y0 w - of_int (py_round (w_y0 w))\<bar> \<le> 1 / 2) \<and>
   (\<forall>w\<in>set ws. \<exists>!r. r \<in> set (page_rows ws) \<and> fst r = py_round (w_y0 w)) \<and>
   (\<forall>(y_coord, row_text)\<in>set (page_rows ws).
      (\<exists>w\<in>set ws. py_round (w_y0 w) = y_coord) \<and>
      row_text = concat (map w_text (filter (\<lambda>w. py_round (w_y0 w) = y_coord) ws)))"
proof (intro conjI ballI)
  show "sorted (map fst (page_rows ws))" by (simp add: page_rows_keys)
  show d: "distinct (map fst (page_rows ws))" by (simp add: page_rows_keys group_words_distinct)
  show "\<bar>w_y0 w - of_int (py_round (w_y0 w))\<bar> \<le> 1 / 2" for w by (rule py_round_nearest)
  show "\<exists>!r. r \<in> set (page_rows ws) \<and> fst r = py_round (w_y0 w)" if "w \<in> set ws" for w
  proof -
    let ?y = "py_round (w_y0 w)"
    let ?t = "concat (map w_text (filter (\<lambda>w. py_round (w_y0 w) = ?y) ws))"
    from that have "(?y, ?t) \<in> set (page_rows ws)"
      by (simp only: page_rows_member) blast
    moreover have "r = (?y, ?t)" if r: "r \<in> set (page_rows ws)" "fst r = ?y" for r
    proof -
      obtain y t where yt: "r = (y, t)" by (cases r)
      with r(1) have "(y, t) \<in> set (page_rows ws)" by simp
      then have "t = concat (map w_text (filter (\<lambda>w. py_round (w_y0 w) = y) ws))"
        by (simp only: page_rows_member)
      with yt r(2) show ?thesis by simp
    qed
    ultimately show ?thesis by auto
  qed
  show "case r of (y_coord, row_text) \<Rightarrow>
      (\<exists>w\<in>set ws. py_round (w_y0 w) = y_coord) \<and>
      row_text = concat (map w_text (filter (\<lambda>w. py_round (w_y0 w) = y_coord) ws))"
    if r: "r \<in> set (page_rows ws)" for r
  proof -
    obtain y t where yt: "r = (y, t)" by (cases r)
    with r have "(y, t) \<in> set (page_rows ws)" by simp
    then have "(\<exists>w\<in>set ws. py_round (w_y0 w) = y) \<and>
        t = concat (map w_text (filter (\<lambda>w. py_round (w_y0 w) = y) ws))"
      by (simp only: page_rows_member)
    with yt show ?thesis by simp
  qed
qed

theorem C3_row_reconstructor_witness:
  "page_rows example_words = [(1, [0x42]), (2, [0x41, 0x43])] \<and>
   sorted (map fst (page_rows example_words)) \<and>
   distinct (map fst (page_rows example_words)) \<and>
   (\<exists>!r. r \<in> set (page_rows example_words) \<and> fst r = 2)"
proof -
  from C3_row_reconstructor [of example_words]
  have s: "sorted (map fst (page_rows example_words))"
    and d: "distinct (map fst (page_rows example_words))"
    and u: "\<forall>w\<in>set example_words.
              \<exists>!r. r \<in> set (page_rows example_words) \<and> fst r = py_round (w_y0 w)"
    by blast+
  have "\<lparr>w_y0 = 5 / 2, w_text = [0x41]\<rparr> \<in> set example_words"
    by (simp add: example_words_def)
  with u have "\<exists>!r. r \<in> set (page_rows example_words) \<and>
      fst r = py_round (w_y0 \<lparr>w_y0 = 5 / 2, w_text = [0x41]\<rparr>)"
    by (rule bspec)
  then have "\<exists>!r. r \<in> set (page_rows example_words) \<and> fst r = 2"
    by (simp add: example_rounds)
  with s d example_page_rows show ?thesis by blast
qed

text \<open>
  C4. No name that the Station Extractor emits for a row text contains the exclusion
  phrase U+63DB U+96FB U+514D U+8CBB U+6642 U+6BB5 U+6298 U+62B5 or the exclusion phrase
  U+8A08 U+8CBB U+6578 U+91CF as a substring.
\<close>

theorem C4_no_exclusion_phrase:
  assumes "name \<in> set (row_stations R row_text)"
  shows "\<not> (\<exists>pre post. name = pre @ exclusion_free_period @ post) \<and>
         \<not> (\<exists>pre post. name = pre @ exclusion_quantity @ post)"
proof -
  from assms obtain station where "name \<in> set (clean_station station)"
    by (auto simp: row_stations_def split: if_splits)
  from clean_station_sublist [OF this] have sub: "sublist name (strip station)"
    and ex: "\<not> sublist exclusion_free_period (strip station)"
            "\<not> sublist exclusion_quantity (strip station)"
    by (simp_all add: py_in_sublist)
  from sub ex have "\<not> sublist exclusion_free_period name" "\<not> sublist exclusion_quantity name"
    by (meson sublist_order.order_trans)+
  then show ?thesis by (simp add: sublist_def)
qed

theorem C4_no_exclusion_phrase_witness:
  "[0x967D, 0x5149, 0x516C, 0x6240] \<in>
     set (row_stations (example_runtime (\<lambda>d. []) (\<lambda>f. Inl [])) scenario_row) \<and>
   \<not> (\<exists>pre post. [0x967D, 0x5149, 0x516C, 0x6240] = pre @ exclusion_free_period @ post) \<and>
   \<not> (\<exists>pre post. [0x967D, 0x5149, 0x516C, 0x6240] = pre @ exclusion_quantity @ post)"
proof -
  have mem: "[0x967D, 0x5149, 0x516C, 0x6240] \<in>
     set (row_stations (example_runtime (\<lambda>d. []) (\<lambda>f. Inl [])) scenario_row)"
    by (simp add: scenario_row_stations example_runtime_standard)
  from mem C4_no_exclusion_phrase [OF mem] show ?thesis by (rule conjI)
qed

text \<open>
  C5, as stated, claims a candidate that ends in whitespace followed by one of \<open>A\<close>
  to \<open>D\<close>. There is none: no candidate of the pattern match, before or after
  \<open>strip()\<close>, ends in a bay designator, for any row text and any runtime. On the row
  text with \<open> A\<close> after the station name the candidate stops at the suffix
  U+516C U+6240.
\<close>

theorem C5_no_candidate_ends_with_bay_counterexample:
  "\<not> (\<exists>R row_text station. station \<in> set (station_findall R row_text) \<and>
         (ends_with_bay station \<or> ends_with_bay (strip station))) \<and>
   station_findall example_world bay_row = [[0x967D, 0x5149, 0x516C, 0x6240]]"
  using candidate_clean bay_row_findall [OF example_world_standard] by blast

text \<open>
  C5, amended. The substitution of line 48 removes, from a string that ends in whitespace
  followed by one letter \<open>A\<close> to \<open>D\<close>, that letter and the whitespace before it,
  once; it leaves unchanged a string without trailing whitespace that does not end so, in
  particular one whose last letter is not preceded by whitespace. No candidate of the
  pattern match ends in whitespace followed by \<open>A\<close> to \<open>D\<close>, each ending with a
  suffix of the location vocabulary, so the substitution changes no candidate: a
  candidate that is not excluded is emitted as its \<open>strip()\<close>.
\<close>

theorem C5_suffix_trim:
  "(ws \<noteq> [] \<and> (\<forall>x\<in>set ws. isspace x) \<and> 0x41 \<le> l \<and> l \<le> 0x44 \<and>
    (b = [] \<or> \<not> isspace (last b)) \<longrightarrow> bay_sub (b @ ws @ [l]) = b) \<and>
   ((t = [] \<or> \<not> isspace (last t)) \<and> \<not> ends_with_bay t \<longrightarrow> bay_sub t = t) \<and>
   (station \<in> set (station_findall R row_text) \<longrightarrow>
      \<not> ends_with_bay station \<and> \<not> ends_with_bay (strip station) \<and>
      clean_station station =
        (if py_in exclusion_free_period (strip station) \<or>
            py_in exclusion_quantity (strip station)
         then [] else [strip station]))"
  using bay_sub_strips [of ws l b] bay_sub_unchanged [of t] candidate_clean [of station R row_text]
  by blast

theorem C5_suffix_trim_witness:
  "bay_sub ([0x58] @ [0x20] @ [0x41]) = [0x58] \<and>
   bay_sub [0x58, 0x41] = [0x58, 0x41] \<and>
   [0x967D, 0x5149, 0x516C, 0x6240] \<in> set (station_findall example_world scenario_row) \<and>
   clean_station [0x967D, 0x5149, 0x516C, 0x6240] = [[0x967D, 0x5149, 0x516C, 0x6240]]"
proof -
  have sp: "isspace 0x20" "\<not> isspace 0x58" "\<not> isspace 0x41"
    by (simp_all add: isspace_def)
  have nb: "\<not> ends_with_bay [0x58, 0x41]"
    by (simp add: ends_with_bay_def isspace_def)
  have mem: "[0x967D, 0x5149, 0x516C, 0x6240] \<in> set (station_findall example_world scenario_row)"
    by (simp add: scenario_findall example_world_standard)
  from C5_suffix_trim [of "[0x20]" "0x41" "[0x58]" "[0x58, 0x41]"
      "[0x967D, 0x5149, 0x516C, 0x6240]" example_world scenario_row] sp nb mem
  show ?thesis
    by (simp add: clean_scenario)
qed

text \<open>
  C6. On the row text of the scenario, under every runtime that is standard on ASCII,
  the Row Classifier accepts the row and the Station Extractor emits exactly one name,
  U+967D U+5149 U+516C U+6240.
\<close>

theorem C6_scenario:
  assumes "ascii_standard R"
  shows "is_swap_row R scenario_row \<and>
         row_stations R scenario_row = [[0x967D, 0x5149, 0x516C, 0x6240]]"
  using assms by (simp add: scenario_is_swap_row scenario_row_stations)

theorem C6_scenario_witness:
  "ascii_standard (example_runtime (\<lambda>d. []) (\<lambda>f. Inl [])) \<and>
   is_swap_row (example_runtime (\<lambda>d. []) (\<lambda>f. Inl [])) scenario_row \<and>
   row_stations (example_runtime (\<lambda>d. []) (\<lambda>f. Inl [])) scenario_row =
     [[0x967D, 0x5149, 0x516C, 0x6240]]"
  by (rule conjI [OF example_runtime_standard C6_scenario [OF example_runtime_standard]])

text \<open>
  C7. For every sequence of names fed to the Aggregator the per-name counts of the
  frequency table add up to the number of names fed, and the total that
  \<open>analyze_bills_in_folder\<close> returns is the sum of the counts of the table it returns
  (on its two early returns as well).
\<close>

theorem C7_total_is_sum_of_counts:
  "sum_list (map snd (value_counts names)) = length names \<and>
   an_total_swaps (analyze_bills_in_folder R folder_path) =
     sum_list (map snd (an_station_counts (analyze_bills_in_folder R folder_path)))"
  by (simp add: analyze_bills_in_folder_def Let_def sum_value_counts)

text \<open>
  C8, as stated, at the example folder. Of its three PDF files \<open>a.pdf\<close> cannot be
  opened and \<open>b.pdf\<close> raises on its second page. The run goes on to \<open>C.PDF\<close>, but
  \<open>b.pdf\<close> is not skipped: the name of its first page is aggregated with the one of
  \<open>C.PDF\<close>, so the total is 2 and not 1.
\<close>

theorem C8_failing_document_is_counted_counterexample:
  "pdf_files_of example_world [0x2E] =
     [[0x61, 0x2E, 0x70, 0x64, 0x66], [0x62, 0x2E, 0x70, 0x64, 0x66], [0x43, 0x2E, 0x50, 0x44, 0x46]] \<and>
   document_error example_world [0x2E, 0x2F, 0x61, 0x2E, 0x70, 0x64, 0x66] = Some [0x62, 0x61, 0x64] \<and>
   document_error example_world [0x2E, 0x2F, 0x62, 0x2E, 0x70, 0x64, 0x66] = Some [0x62, 0x61, 0x64] \<and>
   ex_stations (extract_swap_stations_from_pdf example_world
     [0x2E, 0x2F, 0x62, 0x2E, 0x70, 0x64, 0x66]) = [[0x967D, 0x5149, 0x516C, 0x6240]] \<and>
   ex_stations (extract_swap_stations_from_pdf example_world
     [0x2E, 0x2F, 0x43, 0x2E, 0x50, 0x44, 0x46]) = [[0x967D, 0x5149, 0x516C, 0x6240]] \<and>
   an_total_swaps (analyze_bills_in_folder example_world [0x2E]) = 2 \<and>
   an_station_counts (analyze_bills_in_folder example_world [0x2E]) =
     [([0x967D, 0x5149, 0x516C, 0x6240], 2)]"
  by (simp add: example_world_files example_world_errors example_world_extract
      example_world_analysis)

text \<open>
  C8, amended. A processing error in one document does not end the run:
  \<open>analyze_bills_in_folder\<close> returns normally for every folder, and its total and its
  table are those of the concatenation, in order, of what the per-document extraction
  returns for every PDF file of the folder, the files after a failing one included. Every
  file is announced, and for a file whose processing raises the error message, which
  contains the path of that file, is printed. Of the failing document itself only the
  rest is skipped: the names of the pages processed before the error are kept and
  aggregated, and the pages after the failing one are never read, whatever they hold.
\<close>

theorem C8_failures_are_isolated:
  "an_total_swaps (analyze_bills_in_folder R folder_path) =
     length (concat (map (\<lambda>f. ex_stations
        (extract_swap_stations_from_pdf R (os_path_join R folder_path f)))
        (pdf_files_of R folder_path))) \<and>
   an_station_counts (analyze_bills_in_folder R folder_path) =
     value_counts (concat (map (\<lambda>f. ex_stations
        (extract_swap_stations_from_pdf R (os_path_join R folder_path f)))
        (pdf_files_of R folder_path))) \<and>
   (\<forall>f\<in>set (pdf_files_of R folder_path).
      msg_processing f \<in> set (an_printed (analyze_bills_in_folder R folder_path)) \<and>
      (\<forall>e. document_error R (os_path_join R folder_path f) = Some e \<longrightarrow>
         error_message (os_path_join R folder_path f) e
           \<in> set (an_printed (analyze_bills_in_folder R folder_path)) \<and>
         (\<exists>pre post. error_message (os_path_join R folder_path f) e =
            pre @ os_path_join R folder_path f @ post))) \<and>
   (fitz_open R pdf_path = Inr (pages @ bad # rest) \<and>
    map (page_outcome R) pages = map Inr founds \<and> page_outcome R bad = Inl e' \<longrightarrow>
      document_error R pdf_path = Some e' \<and>
      ex_stations (extract_swap_stations_from_pdf R pdf_path) = concat founds)"
proof (intro conjI ballI allI impI)
  show "document_error R pdf_path = Some e'"
    if "fitz_open R pdf_path = Inr (pages @ bad # rest) \<and>
        map (page_outcome R) pages = map Inr founds \<and> page_outcome R bad = Inl e'"
    using that by (simp add: document_error_def pages_loop_append)
  show "ex_stations (extract_swap_stations_from_pdf R pdf_path) = concat founds"
    if "fitz_open R pdf_path = Inr (pages @ bad # rest) \<and>
        map (page_outcome R) pages = map Inr founds \<and> page_outcome R bad = Inl e'"
    using that by (simp add: extract_swap_stations_from_pdf_def pages_loop_append)
  show "an_total_swaps (analyze_bills_in_folder R folder_path) =
     length (concat (map (\<lambda>f. ex_stations
        (extract_swap_stations_from_pdf R (os_path_join R folder_path f)))
        (pdf_files_of R folder_path)))"
    by (simp add: analyze_bills_in_folder_def Let_def foldl_process_file)
  show "an_station_counts (analyze_bills_in_folder R folder_path) =
     value_counts (concat (map (\<lambda>f. ex_stations
        (extract_swap_stations_from_pdf R (os_path_join R folder_path f)))
        (pdf_files_of R folder_path)))"
  proof (cases "concat (map (\<lambda>f. ex_stations
        (extract_swap_stations_from_pdf R (os_path_join R folder_path f)))
        (pdf_files_of R folder_path)) = []")
    case True
    then show ?thesis
      by (simp only: analyze_bills_in_folder_def Let_def foldl_process_file value_counts_Nil)
         simp
  next
    case False
    then show ?thesis
      by (simp only: analyze_bills_in_folder_def Let_def foldl_process_file) auto
  qed
next
  fix f assume f: "f \<in> set (pdf_files_of R folder_path)"
  show "msg_processing f \<in> set (an_printed (analyze_bills_in_folder R folder_path))"
    by (rule analyze_printed [OF f]) simp
  fix e assume e: "document_error R (os_path_join R folder_path f) = Some e"
  show "error_message (os_path_join R folder_path f) e
           \<in> set (an_printed (analyze_bills_in_folder R folder_path))"
    by (rule analyze_printed [OF f]) (simp add: extract_printed e)
  show "\<exists>pre post. error_message (os_path_join R folder_path f) e =
            pre @ os_path_join R folder_path f @ post"
    unfolding error_message_def by blast
qed

theorem C8_failures_are_isolated_witness:
  "pdf_files_of example_world [0x2E] =
     [[0x61, 0x2E, 0x70, 0x64, 0x66], [0x62, 0x2E, 0x70, 0x64, 0x66], [0x43, 0x2E, 0x50, 0x44, 0x46]] \<and>
   document_error example_world [0x2E, 0x2F, 0x61, 0x2E, 0x70, 0x64, 0x66] = Some [0x62, 0x61, 0x64] \<and>
   an_total_swaps (analyze_bills_in_folder example_world [0x2E]) = 2 \<and>
   an_station_counts (analyze_bills_in_folder example_world [0x2E]) =
     [([0x967D, 0x5149, 0x516C, 0x6240], 2)] \<and>
   msg_processing [0x43, 0x2E, 0x50, 0x44, 0x46]
     \<in> set (an_printed (analyze_bills_in_folder example_world [0x2E])) \<and>
   error_message [0x2E, 0x2F, 0x61, 0x2E, 0x70, 0x64, 0x66] [0x62, 0x61, 0x64]
     \<in> set (an_printed (analyze_bills_in_folder example_world [0x2E])) \<and>
   fitz_open example_world [0x2E, 0x2F, 0x62, 0x2E, 0x70, 0x64, 0x66] =
     Inr ([Inr example_page] @ Inl [0x62, 0x61, 0x64] # []) \<and>
   map (page_outcome example_world) [Inr example_page] =
     map Inr [[[0x967D, 0x5149, 0x516C, 0x6240]]] \<and>
   page_outcome example_world (Inl [0x62, 0x61, 0x64]) = Inl [0x62, 0x61, 0x64] \<and>
   document_error example_world [0x2E, 0x2F, 0x62, 0x2E, 0x70, 0x64, 0x66] = Some [0x62, 0x61, 0x64] \<and>
   ex_stations (extract_swap_stations_from_pdf example_world
     [0x2E, 0x2F, 0x62, 0x2E, 0x70, 0x64, 0x66]) = concat [[[0x967D, 0x5149, 0x516C, 0x6240]]]"
proof -
  let ?b = "[0x2E, 0x2F, 0x62, 0x2E, 0x70, 0x64, 0x66] :: pystr"
  let ?bad = "[0x62, 0x61, 0x64] :: exn"
  have vc: "value_counts [[0x967D, 0x5149, 0x516C, 0x6240], [0x967D, 0x5149, 0x516C, 0x6240]] =
      [([0x967D, 0x5149, 0x516C, 0x6240], 2)]"
    by (simp add: value_counts_def)
  have b: "fitz_open example_world ?b = Inr ([Inr example_page] @ Inl ?bad # [])"
    by (simp add: example_world_open)
  have p: "map (page_outcome example_world) [Inr example_page] =
      map Inr [[[0x967D, 0x5149, 0x516C, 0x6240]]]"
    by (simp add: example_world_outcome)
  have q: "page_outcome example_world (Inl ?bad) = Inl ?bad" by (rule example_world_outcome)
  from C8_failures_are_isolated [where R = example_world and folder_path = "[0x2E]"
      and pdf_path = ?b and pages = "[Inr example_page]" and bad = "Inl ?bad" and rest = "[]"
      and founds = "[[[0x967D, 0x5149, 0x516C, 0x6240]]]" and e' = ?bad] b p q
  show ?thesis
    by (simp add: example_world_files example_world_join example_world_extract
        example_world_errors vc)
qed

text \<open>
  C9. With an empty frequency table the charting stage saves no file, prints the
  diagnostic and returns, whatever the plotting library would have done.
\<close>

theorem C9_empty_table_no_chart:
  "plot_and_save_analysis P [] output_filename =
     \<lparr>pl_printed = [msg_no_data], pl_saved = [], pl_raised = None\<rparr>"
  by (simp add: plot_and_save_analysis_def)

text \<open>
  C10. The claim says that a non-empty table in which every count is 1 gets its chart
  file written. The guard of line 86 indeed lets such a table through, since it tests the
  whole table and not the series that is plotted; but that series is then empty, and on
  an empty series pandas' bar plot of line 102 raises. For every such table and every
  plotting library that raises there: the diagnostic of the guard is not printed, the
  exception leaves the function, no handler standing around lines 100 to 118, and no file
  is saved.
\<close>

theorem C10_all_ones_table_crashes:
  assumes "station_counts \<noteq> []" and "\<forall>p\<in>set station_counts. snd p = 1"
    and "draw_raises P [] = Some e"
  shows "msg_no_data \<notin> set (pl_printed (plot_and_save_analysis P station_counts output_filename)) \<and>
         pl_saved (plot_and_save_analysis P station_counts output_filename) = [] \<and>
         pl_raised (plot_and_save_analysis P station_counts output_filename) \<noteq> None"
proof -
  have warn: "msg_no_data \<notin> set msg_font_warning"
    by (simp add: msg_no_data_def msg_font_warning_def)
  from assms show ?thesis
    by (cases "rc_font_raises P"; cases "rc_fallback_raises P")
       (simp_all add: plot_and_save_analysis_def filter_all_ones draw_and_save_raises warn)
qed

theorem C10_all_ones_table_crashes_witness:
  "[([0x41], 1)] \<noteq> ([] :: (pystr \<times> nat) list) \<and>
   plot_and_save_analysis
       \<lparr>rc_font_raises = None, rc_fallback_raises = None,
        draw_raises = (\<lambda>series. if series = [] then Some [0x65] else None),
        savefig_raises = (\<lambda>f. None)\<rparr> [([0x41], 1)] [0x63]
     = \<lparr>pl_printed = [], pl_saved = [], pl_raised = Some [0x65]\<rparr> \<and>
   msg_no_data \<notin> set (pl_printed (plot_and_save_analysis
       \<lparr>rc_font_raises = None, rc_fallback_raises = None,
        draw_raises = (\<lambda>series. if series = [] then Some [0x65] else None),
        savefig_raises = (\<lambda>f. None)\<rparr> [([0x41], 1)] [0x63])) \<and>
   pl_saved (plot_and_save_analysis
       \<lparr>rc_font_raises = None, rc_fallback_raises = None,
        draw_raises = (\<lambda>series. if series = [] then Some [0x65] else None),
        savefig_raises = (\<lambda>f. None)\<rparr> [([0x41], 1)] [0x63]) = [] \<and>
   pl_raised (plot_and_save_analysis
       \<lparr>rc_font_raises = None, rc_fallback_raises = None,
        draw_raises = (\<lambda>series. if series = [] then Some [0x65] else None),
        savefig_raises = (\<lambda>f. None)\<rparr> [([0x41], 1)] [0x63]) \<noteq> None"
proof -
  let ?P = "\<lparr>rc_font_raises = None, rc_fallback_raises = None,
        draw_raises = (\<lambda>series. if series = [] then Some [0x65] else None),
        savefig_raises = (\<lambda>f. None)\<rparr> :: plotting"
  have ev: "plot_and_save_analysis ?P [([0x41], 1)] [0x63]
      = \<lparr>pl_printed = [], pl_saved = [], pl_raised = Some [0x65]\<rparr>"
    by (simp add: plot_and_save_analysis_def draw_and_save_def)
  have "msg_no_data \<notin> set (pl_printed (plot_and_save_analysis ?P [([0x41], 1)] [0x63])) \<and>
      pl_saved (plot_and_save_analysis ?P [([0x41], 1)] [0x63]) = [] \<and>
      pl_raised (plot_and_save_analysis ?P [([0x41], 1)] [0x63]) \<noteq> None"
    by (rule C10_all_ones_table_crashes [where e = "[0x65]"]) simp_all
  with ev show ?thesis by simp
qed

end
